theory Spec2Isabelle
  imports Main
begin

section \<open>The editor of src/main.cpp\<close>

text \<open>
  The class \<open>Editor\<close> of \<open>src/main.cpp\<close> is embedded as a record of its fields and one
  function per member function. Every member function mutates the object in place; here
  it takes the editor and returns the updated one.

  Conventions of the embedding:
  \<^item> A line (\<open>std::string\<close>) is a \<open>string\<close>, the buffer (\<open>std::vector<std::string>\<close>) a
    \<open>string list\<close>.
  \<^item> The four \<open>int\<close> fields are \<open>int\<close>. Their increments and decrements are taken without
    overflow (an overflow needs a buffer of \<open>2 ^ 31\<close> lines or columns). Where the source
    compares or converts an \<open>int\<close> with a \<open>size_t\<close>, the conversion to the unsigned
    64-bit type is written out (\<open>size_t_of_int\<close>, \<open>size_minus_1\<close>).
  \<^item> Indexing the vector out of range, and iterator arithmetic outside
    \<open>[begin(), end()]\<close>, is undefined behaviour in C++: the model returns
    \<open>Inl UndefinedBehaviour\<close>. \<open>std::string::erase\<close>, \<open>insert\<close> and \<open>substr\<close> throw
    \<open>std::out_of_range\<close> when the position exceeds the length; nothing catches it, so the
    model returns \<open>Inl OutOfRange\<close>.
  \<^item> The key codes \<open>KEY_UP\<close> ... \<open>KEY_BACKSPACE\<close> come from \<open>ncurses.h\<close>, which is not
    part of the repository; they are given the values of that header. Character
    literals are written as their ASCII codes.
  \<^item> The file named by \<open>filename\<close> is a \<open>disk\<close>: its bytes when it exists, and whether an
    \<open>ifstream\<close> and an \<open>ofstream\<close> can open it.
  \<^item> The painting calls of \<open>draw\<close> (\<open>clear\<close>, \<open>mvprintw\<close>, \<open>attron\<close>, \<open>move\<close>,
    \<open>refresh\<close>) belong to the terminal and are not modelled; \<open>draw\<close> keeps the scrolling
    logic and the \<open>substr\<close> calls of its loop, which can throw.
\<close>

subsection \<open>Data\<close>

datatype Mode = NORMAL | INSERT

datatype fault = UndefinedBehaviour | OutOfRange

record editor =
  filename :: string
  content :: "string list"
  copy_buffer :: string
  cursor_x :: int
  cursor_y :: int
  offset_x :: int
  offset_y :: int
  mode :: Mode

record disk =
  bytes :: "string option"
  can_read :: bool
  can_write :: bool

subsection \<open>Constants and conversions\<close>

definition KEY_DOWN :: int where "KEY_DOWN = 258"
definition KEY_UP :: int where "KEY_UP = 259"
definition KEY_LEFT :: int where "KEY_LEFT = 260"
definition KEY_RIGHT :: int where "KEY_RIGHT = 261"
definition KEY_BACKSPACE :: int where "KEY_BACKSPACE = 263"

definition newline :: char where
  "newline = CHR 0x0A"

text \<open>The value of an \<open>int\<close> converted to the 64-bit \<open>size_t\<close>.\<close>

definition size_t_of_int :: "int \<Rightarrow> int" where
  "size_t_of_int i = (if i < 0 then i + 2 ^ 64 else i)"

text \<open>\<open>v.size() - 1\<close> in \<open>size_t\<close> arithmetic: it wraps when the vector is empty.\<close>

definition size_minus_1 :: "nat \<Rightarrow> int" where
  "size_minus_1 n = (if n = 0 then 2 ^ 64 - 1 else int n - 1)"

text \<open>
  \<open>content[cursor_y]\<close> converts the index to \<open>size_t\<close> and is defined when the converted
  index is below the size: for an \<open>int\<close> index, when it lies in \<open>[0, size)\<close> (a negative
  \<open>int\<close> converts to a value above every size a vector can have). The same range is what
  \<open>content.erase(content.begin() + cursor_y)\<close> needs (an iterator that can be
  dereferenced) and what \<open>content.insert(content.begin() + cursor_y + 1, ...)\<close> needs
  (both \<open>begin() + cursor_y\<close> and the iterator after it within \<open>[begin(), end()]\<close>).
\<close>

definition row_ok :: "editor \<Rightarrow> bool" where
  "row_ok e = (0 \<le> cursor_y e \<and> cursor_y e < int (length (content e)))"

text \<open>\<open>v.insert(v.begin() + k, x)\<close> and \<open>v.erase(v.begin() + k)\<close> on a vector.\<close>

definition vec_insert :: "'a list \<Rightarrow> nat \<Rightarrow> 'a \<Rightarrow> 'a list" where
  "vec_insert v k x = take k v @ [x] @ drop k v"

definition vec_erase :: "'a list \<Rightarrow> nat \<Rightarrow> 'a list" where
  "vec_erase v k = take k v @ drop (Suc k) v"

subsection \<open>The constructor's initial fields\<close>

definition new_editor :: "string \<Rightarrow> editor" where
  "new_editor fn =
     \<lparr>filename = fn, content = [], copy_buffer = [], cursor_x = 0, cursor_y = 0,
      offset_x = 0, offset_y = 0, mode = NORMAL\<rparr>"

subsection \<open>loadFile and saveFile\<close>

text \<open>
  \<open>getline(file, line)\<close> on the unread rest of the stream: it fails when nothing is left,
  and otherwise yields the characters up to the next newline (or the end) and the rest
  after that newline.
\<close>

definition getline :: "string \<Rightarrow> (string \<times> string) option" where
  "getline s =
     (if s = [] then None
      else Some (takeWhile (\<lambda>c. c \<noteq> newline) s, drop 1 (dropWhile (\<lambda>c. c \<noteq> newline) s)))"

text \<open>The loop \<open>while (getline(file, line)) content.push_back(line)\<close>.\<close>

function read_lines :: "string \<Rightarrow> string list \<Rightarrow> string list" where
  "read_lines s c =
     (case getline s of None \<Rightarrow> c | Some (l, r) \<Rightarrow> read_lines r (c @ [l]))"
  by pat_completeness auto
termination
proof (relation "measure (\<lambda>(s, c). length s)")
  show "wf (measure (\<lambda>(s, c). length s))"
    by simp
next
  fix s :: string and c :: "string list" and x l r
  assume "getline s = Some x" and "(l, r) = x"
  then have ne: "s \<noteq> []" and r: "r = drop 1 (dropWhile (\<lambda>c. c \<noteq> newline) s)"
    by (auto simp: getline_def split: if_splits)
  have "length (dropWhile (\<lambda>c. c \<noteq> newline) s) \<le> length s"
    by (rule length_dropWhile_le)
  with ne r have "length r < length s"
    by (cases "dropWhile (\<lambda>c. c \<noteq> newline) s") auto
  then show "((r, c @ [l]), (s, c)) \<in> measure (\<lambda>(s, c). length s)"
    by simp
qed

declare read_lines.simps [simp del]

text \<open>What an \<open>ifstream\<close> on the file reads: nothing when \<open>is_open()\<close> is false.\<close>

definition ifstream_open :: "disk \<Rightarrow> string option" where
  "ifstream_open d = (if can_read d then bytes d else None)"

definition loadFile :: "editor \<Rightarrow> disk \<Rightarrow> editor" where
  "loadFile e d =
     (case ifstream_open d of
        Some s \<Rightarrow>
          (let c = read_lines s (content e)
           in e\<lparr>content := (if c = [] then c @ [[]] else c)\<rparr>)
      | None \<Rightarrow> e)"

definition file_text :: "string list \<Rightarrow> string" where
  "file_text ls = concat (map (\<lambda>l. l @ [newline]) ls)"

definition saveFile :: "editor \<Rightarrow> disk \<Rightarrow> disk" where
  "saveFile e d =
     (if can_write d then d\<lparr>bytes := Some (file_text (content e))\<rparr> else d)"

subsection \<open>handleNormalMode and handleInsertMode\<close>

definition handleNormalMode :: "editor \<Rightarrow> int \<Rightarrow> fault + editor" where
  "handleNormalMode e ch =
     (if ch = KEY_UP then
        Inr (if cursor_y e > 0 then e\<lparr>cursor_y := cursor_y e - 1\<rparr> else e)
      else if ch = KEY_DOWN then
        Inr (if size_t_of_int (cursor_y e) < size_minus_1 (length (content e))
             then e\<lparr>cursor_y := cursor_y e + 1\<rparr> else e)
      else if ch = KEY_LEFT then
        Inr (if cursor_x e > 0 then e\<lparr>cursor_x := cursor_x e - 1\<rparr> else e)
      else if ch = KEY_RIGHT then
        (if \<not> row_ok e then Inl UndefinedBehaviour
         else Inr (if size_t_of_int (cursor_x e)
                      < int (length (content e ! nat (cursor_y e)))
                   then e\<lparr>cursor_x := cursor_x e + 1\<rparr> else e))
      else if ch = 105 \<comment> \<open>'i'\<close> then
        Inr (e\<lparr>mode := INSERT\<rparr>)
      else if ch = 100 \<comment> \<open>'d'\<close> then
        (if length (content e) > 1 then
           (if row_ok e then
              (let c = vec_erase (content e) (nat (cursor_y e));
                   y = (if size_t_of_int (cursor_y e) \<ge> int (length c)
                        then cursor_y e - 1 else cursor_y e)
               in Inr (e\<lparr>content := c, cursor_y := y, cursor_x := 0\<rparr>))
            else Inl UndefinedBehaviour)
         else
           (if content e = [] then Inl UndefinedBehaviour
            else Inr (e\<lparr>content := (content e)[0 := []], cursor_x := 0\<rparr>)))
      else if ch = 121 \<comment> \<open>'y'\<close> then
        (if \<not> row_ok e then Inl UndefinedBehaviour
         else Inr (e\<lparr>copy_buffer := content e ! nat (cursor_y e)\<rparr>))
      else if ch = 112 \<comment> \<open>'p'\<close> then
        (if \<not> row_ok e then Inl UndefinedBehaviour
         else Inr (e\<lparr>content := vec_insert (content e) (nat (cursor_y e + 1)) (copy_buffer e),
                     cursor_y := cursor_y e + 1\<rparr>))
      else if ch = 111 \<comment> \<open>'o'\<close> then
        (if \<not> row_ok e then Inl UndefinedBehaviour
         else Inr (e\<lparr>content := vec_insert (content e) (nat (cursor_y e + 1)) [],
                     cursor_y := cursor_y e + 1, cursor_x := 0\<rparr>))
      else Inr e)"

text \<open>
  \<open>s.erase(pos, 1)\<close>, \<open>s.insert(pos, 1, ch)\<close>, \<open>s.substr(pos)\<close> and \<open>s.substr(0, n)\<close> of
  \<open>std::string\<close>, for a position that is in range (the callers test the range first).
\<close>

definition str_erase1 :: "string \<Rightarrow> nat \<Rightarrow> string" where
  "str_erase1 s pos = take pos s @ drop (Suc pos) s"

definition str_insert1 :: "string \<Rightarrow> nat \<Rightarrow> char \<Rightarrow> string" where
  "str_insert1 s pos c = take pos s @ [c] @ drop pos s"

definition handleInsertMode :: "editor \<Rightarrow> int \<Rightarrow> fault + editor" where
  "handleInsertMode e ch =
     (if ch = 27 then
        Inr (e\<lparr>mode := NORMAL\<rparr>)
      else if ch = KEY_BACKSPACE \<or> ch = 127 then
        (if cursor_x e > 0 then
           (if \<not> row_ok e then Inl UndefinedBehaviour
            else
              (let r = nat (cursor_y e); l = content e ! r
               in if size_t_of_int (cursor_x e - 1) > int (length l) then Inl OutOfRange
                  else Inr (e\<lparr>content := (content e)[r := str_erase1 l (nat (cursor_x e - 1))],
                              cursor_x := cursor_x e - 1\<rparr>)))
         else Inr e)
      else if ch = 10 \<comment> \<open>newline\<close> then
        (if \<not> row_ok e then Inl UndefinedBehaviour
         else
           (let r = nat (cursor_y e); l = content e ! r
            in if size_t_of_int (cursor_x e) > int (length l) then Inl OutOfRange
               else
                 (let c1 = vec_insert (content e) (Suc r) (drop (nat (cursor_x e)) l);
                      c2 = c1[r := take (nat (size_t_of_int (cursor_x e))) (c1 ! r)]
                  in Inr (e\<lparr>content := c2, cursor_y := cursor_y e + 1, cursor_x := 0\<rparr>))))
      else if ch \<ge> 32 \<and> ch \<le> 126 then
        (if \<not> row_ok e then Inl UndefinedBehaviour
         else
           (let r = nat (cursor_y e); l = content e ! r
            in if size_t_of_int (cursor_x e) > int (length l) then Inl OutOfRange
               else Inr (e\<lparr>content := (content e)[r := str_insert1 l (nat (cursor_x e)) (char_of ch)],
                           cursor_x := cursor_x e + 1\<rparr>)))
      else Inr e)"

subsection \<open>draw\<close>

text \<open>
  \<open>max_y\<close> and \<open>max_x\<close> are what \<open>getmaxyx\<close> reports. The rows the loop of \<open>draw\<close> visits
  are those from \<open>offset_y\<close> on, at most \<open>max_y - 1\<close> of them (both read as \<open>size_t\<close>);
  on each it calls \<open>substr(offset_x, max_x)\<close>, which throws when \<open>offset_x\<close> exceeds the
  length of that row.
\<close>

definition drawn_rows :: "editor \<Rightarrow> int \<Rightarrow> string list" where
  "drawn_rows e max_y =
     take (nat (size_t_of_int (max_y - 1)))
       (drop (nat (size_t_of_int (offset_y e))) (content e))"

definition draw :: "editor \<Rightarrow> int \<Rightarrow> int \<Rightarrow> fault + editor" where
  "draw e max_y max_x =
     (let e1 = (if cursor_y e < offset_y e then e\<lparr>offset_y := cursor_y e\<rparr>
                else if cursor_y e \<ge> offset_y e + max_y - 1
                then e\<lparr>offset_y := cursor_y e - max_y + 1\<rparr> else e);
          e2 = (if cursor_x e1 < offset_x e1 then e1\<lparr>offset_x := cursor_x e1\<rparr>
                else if cursor_x e1 \<ge> offset_x e1 + max_x - 1
                then e1\<lparr>offset_x := cursor_x e1 - max_x + 1\<rparr> else e1)
      in if list_all (\<lambda>l. size_t_of_int (offset_x e2) \<le> int (length l)) (drawn_rows e2 max_y)
         then Inr e2 else Inl OutOfRange)"

subsection \<open>The constructor and run\<close>

definition Editor :: "string \<Rightarrow> disk \<Rightarrow> int \<Rightarrow> int \<Rightarrow> fault + editor" where
  "Editor fn d max_y max_x = draw (loadFile (new_editor fn) d) max_y max_x"

text \<open>
  \<open>run\<close> reads keys with \<open>getch\<close> until it reads \<open>'q'\<close> (113). The keys still to come are
  a list: when the list is used up the loop is blocked in \<open>getch\<close> (\<open>Waiting\<close>); a fault
  ends the program (\<open>Crashed\<close>); after \<open>'q'\<close> the file is saved (\<open>Saved\<close>) and the keys
  after it are never read.
\<close>

datatype outcome = Saved editor disk | Waiting editor | Crashed fault

definition dispatch :: "editor \<Rightarrow> int \<Rightarrow> fault + editor" where
  "dispatch e ch =
     (case mode e of NORMAL \<Rightarrow> handleNormalMode e ch | INSERT \<Rightarrow> handleInsertMode e ch)"

fun run :: "editor \<Rightarrow> int list \<Rightarrow> int \<Rightarrow> int \<Rightarrow> disk \<Rightarrow> outcome" where
  "run e [] max_y max_x d = Waiting e"
| "run e (ch # chs) max_y max_x d =
     (if ch = 113 \<comment> \<open>'q'\<close> then Saved e (saveFile e d)
      else
        (case dispatch e ch of
           Inl f \<Rightarrow> Crashed f
         | Inr e1 \<Rightarrow>
             (case draw e1 max_y max_x of
                Inl f \<Rightarrow> Crashed f
              | Inr e2 \<Rightarrow> run e2 chs max_y max_x d)))"

subsection \<open>Notions used to state the properties\<close>

text \<open>The line under the cursor.\<close>

definition cur_line :: "editor \<Rightarrow> string" where
  "cur_line e = content e ! nat (cursor_y e)"

text \<open>A sequence of keys handled in Normal mode, one after the other.\<close>

fun normal_keys :: "editor \<Rightarrow> int list \<Rightarrow> fault + editor" where
  "normal_keys e [] = Inr e"
| "normal_keys e (k # ks) =
     (case handleNormalMode e k of Inl f \<Rightarrow> Inl f | Inr e1 \<Rightarrow> normal_keys e1 ks)"

text \<open>Neither a line of the buffer nor the clipboard holds the character \<open>q\<close>.\<close>

definition no_q :: "editor \<Rightarrow> bool" where
  "no_q e =
     (list_all (\<lambda>l. CHR ''q'' \<notin> set l) (content e) \<and> CHR ''q'' \<notin> set (copy_buffer e))"

text \<open>The editor a run has reached, when it has not crashed.\<close>

fun reached :: "outcome \<Rightarrow> editor option" where
  "reached (Saved e d) = Some e"
| "reached (Waiting e) = Some e"
| "reached (Crashed f) = None"

subsection \<open>Concrete editors and files\<close>

definition missing_file :: disk where
  "missing_file = \<lparr>bytes = None, can_read = True, can_write = True\<rparr>"

definition two_lines :: editor where
  "two_lines = (new_editor ''notes.txt'')\<lparr>content := [''abc'', ''def''], cursor_x := 1\<rparr>"

definition hello_world :: editor where
  "hello_world = (new_editor ''notes.txt'')\<lparr>content := [''hello'', ''world''], cursor_x := 2\<rparr>"

definition short_below :: editor where
  "short_below = (new_editor ''notes.txt'')\<lparr>content := [''hello'', []], cursor_x := 5\<rparr>"

definition small_screen :: editor where
  "small_screen = (new_editor ''notes.txt'')\<lparr>content := [''abcd'', ''efgh'', ''ijkl'']\<rparr>"

definition scrolled :: editor where
  "scrolled = small_screen\<lparr>cursor_x := 3, cursor_y := 2\<rparr>"

section \<open>Properties\<close>

subsection \<open>Auxiliary facts\<close>

lemmas key_defs = KEY_UP_def KEY_DOWN_def KEY_LEFT_def KEY_RIGHT_def KEY_BACKSPACE_def

lemma size_t_of_int_nonneg: "0 \<le> i \<Longrightarrow> size_t_of_int i = i"
  by (simp add: size_t_of_int_def)

lemma handleNormalMode_d:
  assumes "row_ok e"
  shows "handleNormalMode e 100 =
     Inr (e\<lparr>content := (if length (content e) > 1
                         then vec_erase (content e) (nat (cursor_y e)) else [[]]),
            cursor_y := (if length (content e) > 1 \<and> cursor_y e = int (length (content e)) - 1
                         then cursor_y e - 1 else cursor_y e),
            cursor_x := 0\<rparr>)"
proof (cases "length (content e) > 1")
  case True
  have len: "length (vec_erase (content e) (nat (cursor_y e))) = length (content e) - 1"
    using assms by (auto simp: vec_erase_def row_ok_def)
  show ?thesis
    using assms True len
    by (auto simp: handleNormalMode_def key_defs row_ok_def size_t_of_int_nonneg Let_def)
next
  case False
  with assms obtain l where c: "content e = [l]"
    by (cases "content e") (auto simp: row_ok_def)
  then show ?thesis
    by (simp add: handleNormalMode_def key_defs)
qed

lemma handleNormalMode_up:
  "handleNormalMode e KEY_UP =
     Inr (if cursor_y e > 0 then e\<lparr>cursor_y := cursor_y e - 1\<rparr> else e)"
  by (simp add: handleNormalMode_def)

lemma handleNormalMode_down:
  assumes "row_ok e"
  shows "handleNormalMode e KEY_DOWN =
     Inr (if cursor_y e < int (length (content e)) - 1
          then e\<lparr>cursor_y := cursor_y e + 1\<rparr> else e)"
  using assms
  by (auto simp: handleNormalMode_def key_defs row_ok_def size_t_of_int_nonneg
        size_minus_1_def)

lemma row_ok_after_d:
  assumes "row_ok e" and "handleNormalMode e 100 = Inr e1"
  shows "row_ok e1"
proof -
  have len: "length (vec_erase (content e) (nat (cursor_y e))) = length (content e) - 1"
    using assms(1) by (auto simp: vec_erase_def row_ok_def)
  show ?thesis
    using assms len unfolding handleNormalMode_d [OF assms(1)]
    by (auto simp: row_ok_def split: if_splits)
qed

lemma row_ok_after_up:
  "row_ok e \<Longrightarrow> handleNormalMode e KEY_UP = Inr e1 \<Longrightarrow> row_ok e1"
  unfolding handleNormalMode_up by (auto simp: row_ok_def split: if_splits)

lemma row_ok_after_down:
  "row_ok e \<Longrightarrow> handleNormalMode e KEY_DOWN = Inr e1 \<Longrightarrow> row_ok e1"
  by (auto simp: handleNormalMode_down row_ok_def split: if_splits)

lemma normal_keys_d_up_down:
  assumes "row_ok e" and "set ks \<subseteq> {100, KEY_UP, KEY_DOWN}"
  shows "\<exists>e1. normal_keys e ks = Inr e1 \<and> row_ok e1"
  using assms
proof (induction ks arbitrary: e)
  case Nil
  then show ?case by simp
next
  case (Cons k ks)
  from Cons.prems have k: "k = 100 \<or> k = KEY_UP \<or> k = KEY_DOWN"
    and ks: "set ks \<subseteq> {100, KEY_UP, KEY_DOWN}"
    by auto
  from k Cons.prems(1) obtain e1 where e1: "handleNormalMode e k = Inr e1"
    using handleNormalMode_d handleNormalMode_up handleNormalMode_down by blast
  with k Cons.prems(1) have "row_ok e1"
    using row_ok_after_d row_ok_after_up row_ok_after_down by blast
  from Cons.IH [OF this ks] e1 show ?case by simp
qed

subsection \<open>Loading\<close>

text \<open>
  C1 (the code departs from the claim). The claim: \<open>load\<close> returns a buffer with exactly
  one empty line when the file cannot be opened or holds no line, so a missing file
  gives the document \<open>[""]\<close> and the buffer never has length zero. In \<open>loadFile\<close> the
  \<open>push_back("")\<close> that "ensures there's at least one empty line" stands inside the
  \<open>is_open()\<close> branch: for a file that cannot be opened the buffer stays empty, and the
  first key typed in Insert mode then indexes an empty vector.
\<close>

theorem loadFile_missing_file_no_line:
  "content (loadFile (new_editor ''notes.txt'') missing_file) = []
   \<and> Editor ''notes.txt'' missing_file 24 80
       = Inr (new_editor ''notes.txt'')
   \<and> run (new_editor ''notes.txt'') [105, 104, 105, 27, 113] 24 80 missing_file
       = Crashed UndefinedBehaviour"
  by (simp add: loadFile_def ifstream_open_def missing_file_def new_editor_def Editor_def
        draw_def drawn_rows_def dispatch_def handleNormalMode_def handleInsertMode_def
        key_defs row_ok_def size_t_of_int_def)

text \<open>The other half of C1 holds: a file that opens and holds no line gives \<open>[""]\<close>.\<close>

lemma loadFile_no_line:
  "content (loadFile (new_editor fn) \<lparr>bytes = Some [], can_read = True, can_write = w\<rparr>) = [[]]"
  by (simp add: loadFile_def ifstream_open_def new_editor_def getline_def read_lines.simps)

subsection \<open>Deleting lines\<close>

text \<open>
  C2. With the cursor on a line of a buffer of at least one line, delete-line (\<open>'d'\<close>,
  100, in Normal mode) removes that line when the buffer has more than one line and
  clears the only line otherwise; and every sequence of delete-line keys, with the
  cursor moved up or down in between at will, runs without fault and leaves a buffer of
  at least one line with the cursor on one of its lines.
\<close>

theorem deleteLine_keeps_one_line:
  assumes "length (content e) \<ge> 1" and "row_ok e"
  shows "(\<exists>e1. handleNormalMode e 100 = Inr e1 \<and>
            content e1 =
              (if length (content e) > 1
               then take (nat (cursor_y e)) (content e) @ drop (Suc (nat (cursor_y e))) (content e)
               else [[]]))
         \<and> (set ks \<subseteq> {100, KEY_UP, KEY_DOWN} \<longrightarrow>
              (\<exists>e2. normal_keys e ks = Inr e2 \<and> length (content e2) \<ge> 1 \<and> row_ok e2))"
proof -
  have one: "\<exists>e1. handleNormalMode e 100 = Inr e1 \<and>
            content e1 =
              (if length (content e) > 1
               then take (nat (cursor_y e)) (content e) @ drop (Suc (nat (cursor_y e))) (content e)
               else [[]])"
    by (simp add: handleNormalMode_d [OF assms(2)] vec_erase_def)
  have many: "\<exists>e2. normal_keys e ks = Inr e2 \<and> length (content e2) \<ge> 1 \<and> row_ok e2"
    if "set ks \<subseteq> {100, KEY_UP, KEY_DOWN}"
  proof -
    from normal_keys_d_up_down [OF assms(2) that]
    obtain e2 where e2: "normal_keys e ks = Inr e2" "row_ok e2" by blast
    then have "length (content e2) \<ge> 1" by (simp add: row_ok_def)
    with e2 show ?thesis by blast
  qed
  from one many show ?thesis by blast
qed

theorem deleteLine_keeps_one_line_witness:
  "length (content two_lines) \<ge> 1 \<and> row_ok two_lines
   \<and> set [100, KEY_DOWN, 100, 100] \<subseteq> {100, KEY_UP, KEY_DOWN}
   \<and> (\<exists>e1. handleNormalMode two_lines 100 = Inr e1 \<and> content e1 = [''def''])
   \<and> (\<exists>e2. normal_keys two_lines [100, KEY_DOWN, 100, 100] = Inr e2
          \<and> length (content e2) \<ge> 1 \<and> row_ok e2)"
  using deleteLine_keeps_one_line [of two_lines "[100, KEY_DOWN, 100, 100]"]
  by (simp add: two_lines_def new_editor_def row_ok_def)

subsection \<open>Scrolling\<close>

text \<open>
  C3 (the code departs from the claim). The claim: after \<open>draw\<close> has recomputed the
  offsets, \<open>offset_y \<le> cursor_y \<le> offset_y + max_y - 2\<close> and
  \<open>offset_x \<le> cursor_x \<le> offset_x + max_x - 2\<close>. The guard of the second branch,
  \<open>cursor_y >= offset_y + max_y - 1\<close>, is the negation of that upper bound, but the
  assignment \<open>offset_y = cursor_y - max_y + 1\<close> puts the cursor at
  \<open>offset_y + max_y - 1\<close>, one past it: the row of the status bar, which the loop of
  \<open>draw\<close> does not paint. On a terminal of 3 rows and 4 columns, with the file
  \<open>abcd\<close>, \<open>efgh\<close>, \<open>ijkl\<close> loaded, the keys down, down, right, right, right reach
  the editor \<open>scrolled\<close>, where both upper bounds fail and the line of the cursor is
  not among the drawn rows.
\<close>

theorem draw_cursor_past_window:
  "run small_screen [KEY_DOWN, KEY_DOWN, KEY_RIGHT, KEY_RIGHT, KEY_RIGHT] 3 4 missing_file
     = Waiting scrolled
   \<and> draw scrolled 3 4 = Inr scrolled
   \<and> drawn_rows scrolled 3 = [''abcd'', ''efgh'']
   \<and> cursor_y scrolled = offset_y scrolled + 3 - 1
   \<and> \<not> cursor_y scrolled \<le> offset_y scrolled + 3 - 2
   \<and> \<not> cursor_x scrolled \<le> offset_x scrolled + 4 - 2"
  by (simp add: scrolled_def small_screen_def new_editor_def dispatch_def
        handleNormalMode_def key_defs draw_def drawn_rows_def size_t_of_int_def
        size_minus_1_def row_ok_def)

text \<open>
  What \<open>draw\<close> does establish on a terminal of at least one row and one column: the
  cursor is at most \<open>max_y - 1\<close> rows and \<open>max_x - 1\<close> columns past the offsets.
\<close>

lemma draw_window_as_implemented:
  assumes "draw e max_y max_x = Inr e1" and "1 \<le> max_y" and "1 \<le> max_x"
  shows "offset_y e1 \<le> cursor_y e1 \<and> cursor_y e1 \<le> offset_y e1 + max_y - 1
       \<and> offset_x e1 \<le> cursor_x e1 \<and> cursor_x e1 \<le> offset_x e1 + max_x - 1"
  using assms by (auto simp: draw_def Let_def split: if_splits)

subsection \<open>Copy and paste\<close>

lemma vec_insert_nth:
  assumes "k \<le> length v"
  shows "length (vec_insert v k x) = Suc (length v)"
    and "vec_insert v k x ! k = x"
    and "\<And>i. i < k \<Longrightarrow> vec_insert v k x ! i = v ! i"
    and "\<And>i. k \<le> i \<Longrightarrow> i < length v \<Longrightarrow> vec_insert v k x ! Suc i = v ! i"
proof -
  show "length (vec_insert v k x) = Suc (length v)"
    using assms by (simp add: vec_insert_def)
  show "vec_insert v k x ! k = x"
    using assms by (simp add: vec_insert_def nth_append)
  show "vec_insert v k x ! i = v ! i" if "i < k" for i
    using assms that by (simp add: vec_insert_def nth_append)
  show "vec_insert v k x ! Suc i = v ! i" if "k \<le> i" "i < length v" for i
  proof -
    have "vec_insert v k x ! Suc i = (x # drop k v) ! (Suc i - k)"
      using assms that by (simp add: vec_insert_def nth_append)
    also have "\<dots> = drop k v ! (i - k)"
      using that by (simp add: Suc_diff_le)
    also have "\<dots> = v ! i"
      using assms that by simp
    finally show ?thesis .
  qed
qed

text \<open>
  C5. With the cursor on a line of a buffer of at least one line, copy-line (\<open>'y'\<close>, 121)
  followed by paste-line (\<open>'p'\<close>, 112) in Normal mode puts a line equal to the copied
  line right after the cursor row: the lines up to that row stay where they are, every
  later line moves down by one index, the cursor row grows by one, and the paste leaves
  the clipboard as the copy set it.
\<close>

theorem copy_paste_inserts_line_below:
  assumes "length (content e) \<ge> 1" and "row_ok e"
  shows "\<exists>e1 e2. handleNormalMode e 121 = Inr e1 \<and> handleNormalMode e1 112 = Inr e2
           \<and> copy_buffer e1 = cur_line e
           \<and> content e2 = take (Suc (nat (cursor_y e))) (content e) @ [cur_line e]
                            @ drop (Suc (nat (cursor_y e))) (content e)
           \<and> length (content e2) = Suc (length (content e))
           \<and> content e2 ! Suc (nat (cursor_y e)) = cur_line e
           \<and> (\<forall>i \<le> nat (cursor_y e). content e2 ! i = content e ! i)
           \<and> (\<forall>i. nat (cursor_y e) < i \<and> i < length (content e)
                  \<longrightarrow> content e2 ! Suc i = content e ! i)
           \<and> cursor_y e2 = cursor_y e + 1 \<and> cursor_x e2 = cursor_x e
           \<and> copy_buffer e2 = copy_buffer e1"
proof -
  let ?r = "nat (cursor_y e)"
  let ?e1 = "e\<lparr>copy_buffer := cur_line e\<rparr>"
  let ?c2 = "vec_insert (content e) (Suc ?r) (cur_line e)"
  let ?e2 = "?e1\<lparr>content := ?c2, cursor_y := cursor_y e + 1\<rparr>"
  from assms(2) have r: "Suc ?r \<le> length (content e)" and y: "0 \<le> cursor_y e"
    by (auto simp: row_ok_def)
  have y1: "nat (cursor_y e + 1) = Suc ?r"
    using y by simp
  have s1: "handleNormalMode e 121 = Inr ?e1"
    using assms(2)
    by (simp add: handleNormalMode_def key_defs cur_line_def)
  have s2: "handleNormalMode ?e1 112 = Inr ?e2"
    using assms(2) y1 by (simp add: handleNormalMode_def key_defs row_ok_def)
  have "content ?e2 = take (Suc ?r) (content e) @ [cur_line e] @ drop (Suc ?r) (content e)"
    by (simp add: vec_insert_def)
  moreover have "length (content ?e2) = Suc (length (content e))"
    using vec_insert_nth(1) [OF r] by simp
  moreover have "content ?e2 ! Suc ?r = cur_line e"
    using vec_insert_nth(2) [OF r] by simp
  moreover have "\<forall>i \<le> ?r. content ?e2 ! i = content e ! i"
    using vec_insert_nth(3) [OF r] by simp
  moreover have "\<forall>i. ?r < i \<and> i < length (content e) \<longrightarrow> content ?e2 ! Suc i = content e ! i"
    using vec_insert_nth(4) [OF r] by simp
  ultimately show ?thesis
    using s1 s2 by simp
qed

theorem copy_paste_inserts_line_below_witness:
  "length (content hello_world) \<ge> 1 \<and> row_ok hello_world
   \<and> (\<exists>e1 e2. handleNormalMode hello_world 121 = Inr e1 \<and> handleNormalMode e1 112 = Inr e2
          \<and> content e2 = [''hello'', ''hello'', ''world'']
          \<and> cursor_y e2 = 1 \<and> copy_buffer e2 = ''hello'' \<and> copy_buffer e1 = ''hello'')"
proof -
  have h1: "length (content hello_world) \<ge> 1"
    by (simp add: hello_world_def)
  have h2: "row_ok hello_world"
    by (simp add: hello_world_def new_editor_def row_ok_def)
  from copy_paste_inserts_line_below [OF h1 h2]
  obtain e1 e2 where "handleNormalMode hello_world 121 = Inr e1"
    and "handleNormalMode e1 112 = Inr e2"
    and "copy_buffer e1 = cur_line hello_world"
    and "content e2 = take (Suc (nat (cursor_y hello_world))) (content hello_world)
           @ [cur_line hello_world] @ drop (Suc (nat (cursor_y hello_world))) (content hello_world)"
    and "cursor_y e2 = cursor_y hello_world + 1"
    and "copy_buffer e2 = copy_buffer e1"
    by blast
  then have "handleNormalMode hello_world 121 = Inr e1 \<and> handleNormalMode e1 112 = Inr e2
          \<and> content e2 = [''hello'', ''hello'', ''world'']
          \<and> cursor_y e2 = 1 \<and> copy_buffer e2 = ''hello'' \<and> copy_buffer e1 = ''hello''"
    by (simp add: hello_world_def new_editor_def cur_line_def)
  with h1 h2 show ?thesis by blast
qed

subsection \<open>Splitting a line\<close>

text \<open>
  C6. With the cursor on a line of the buffer and the column between 0 and the length
  of that line, the newline key (10) in Insert mode cuts the line down to its first
  \<open>cursor_x\<close> characters and puts the remainder in a new line right after it; the two
  lines concatenated are the original line. The cursor goes to the start of the new line.
\<close>

theorem splitLine_concat:
  assumes "row_ok e" and "0 \<le> cursor_x e" and "cursor_x e \<le> int (length (cur_line e))"
  shows "\<exists>e1. handleInsertMode e 10 = Inr e1
           \<and> content e1 = take (nat (cursor_y e)) (content e)
                @ [take (nat (cursor_x e)) (cur_line e), drop (nat (cursor_x e)) (cur_line e)]
                @ drop (Suc (nat (cursor_y e))) (content e)
           \<and> content e1 ! nat (cursor_y e) = take (nat (cursor_x e)) (cur_line e)
           \<and> content e1 ! Suc (nat (cursor_y e)) = drop (nat (cursor_x e)) (cur_line e)
           \<and> content e1 ! nat (cursor_y e) @ content e1 ! Suc (nat (cursor_y e)) = cur_line e
           \<and> cursor_y e1 = cursor_y e + 1 \<and> cursor_x e1 = 0"
proof -
  let ?r = "nat (cursor_y e)" and ?x = "nat (cursor_x e)" and ?l = "cur_line e"
  let ?c = "take ?r (content e) @ [take ?x ?l, drop ?x ?l] @ drop (Suc ?r) (content e)"
  from assms(1) have r: "?r < length (content e)"
    by (auto simp: row_ok_def)
  have lt: "length (take ?r (content e)) = ?r"
    using r by simp
  have ins: "vec_insert (content e) (Suc ?r) (drop ?x ?l)
      = take ?r (content e) @ [?l, drop ?x ?l] @ drop (Suc ?r) (content e)"
    using r by (simp add: vec_insert_def take_Suc_conv_app_nth cur_line_def)
  have upd: "(take ?r (content e) @ [?l, drop ?x ?l] @ drop (Suc ?r) (content e))
       [?r := take ?x ?l] = ?c"
    using lt by (simp add: list_update_append)
  have nth0: "(take ?r (content e) @ [?l, drop ?x ?l] @ drop (Suc ?r) (content e)) ! ?r = ?l"
    using lt by (simp add: nth_append)
  have step: "handleInsertMode e 10
      = Inr (e\<lparr>content := ?c, cursor_y := cursor_y e + 1, cursor_x := 0\<rparr>)"
    using assms(1) assms(2,3) ins upd nth0
    by (simp add: handleInsertMode_def key_defs size_t_of_int_nonneg Let_def
          cur_line_def [symmetric])
  have n0: "?c ! ?r = take ?x ?l"
    using lt by (simp add: nth_append)
  have n1: "?c ! Suc ?r = drop ?x ?l"
    using lt by (simp add: nth_append)
  show ?thesis
    using step n0 n1 by simp
qed

theorem splitLine_concat_witness:
  "row_ok hello_world \<and> 0 \<le> cursor_x hello_world
   \<and> cursor_x hello_world \<le> int (length (cur_line hello_world))
   \<and> (\<exists>e1. handleInsertMode hello_world 10 = Inr e1
          \<and> content e1 = [''he'', ''llo'', ''world''] \<and> cursor_y e1 = 1 \<and> cursor_x e1 = 0)"
proof -
  have h1: "row_ok hello_world"
    by (simp add: hello_world_def new_editor_def row_ok_def)
  have h2: "0 \<le> cursor_x hello_world"
    by (simp add: hello_world_def)
  have h3: "cursor_x hello_world \<le> int (length (cur_line hello_world))"
    by (simp add: hello_world_def new_editor_def cur_line_def)
  from splitLine_concat [OF h1 h2 h3]
  obtain e1 where "handleInsertMode hello_world 10 = Inr e1"
    and "content e1 = take (nat (cursor_y hello_world)) (content hello_world)
           @ [take (nat (cursor_x hello_world)) (cur_line hello_world),
              drop (nat (cursor_x hello_world)) (cur_line hello_world)]
           @ drop (Suc (nat (cursor_y hello_world))) (content hello_world)"
    and "cursor_y e1 = cursor_y hello_world + 1" and "cursor_x e1 = 0"
    by blast
  then have "handleInsertMode hello_world 10 = Inr e1
      \<and> content e1 = [''he'', ''llo'', ''world''] \<and> cursor_y e1 = 1 \<and> cursor_x e1 = 0"
    by (simp add: hello_world_def new_editor_def cur_line_def)
  with h1 h2 h3 show ?thesis by blast
qed

subsection \<open>Typing and erasing a character\<close>

lemma str_erase1_insert1: "x \<le> length l \<Longrightarrow> str_erase1 (str_insert1 l x c) x = l"
  by (simp add: str_erase1_def str_insert1_def)

lemma handleInsertMode_printable:
  assumes "row_ok e" and "0 \<le> cursor_x e" and "cursor_x e \<le> int (length (cur_line e))"
    and "32 \<le> ch" and "ch \<le> 126"
  shows "handleInsertMode e ch =
     Inr (e\<lparr>content := (content e)[nat (cursor_y e) :=
                 str_insert1 (cur_line e) (nat (cursor_x e)) (char_of ch)],
            cursor_x := cursor_x e + 1\<rparr>)"
  using assms(1) assms(2-)
  by (simp add: handleInsertMode_def key_defs size_t_of_int_nonneg Let_def cur_line_def)

lemma handleInsertMode_backspace:
  assumes "row_ok e" and "0 < cursor_x e" and "cursor_x e - 1 \<le> int (length (cur_line e))"
    and "bs = KEY_BACKSPACE \<or> bs = 127"
  shows "handleInsertMode e bs =
     Inr (e\<lparr>content := (content e)[nat (cursor_y e) :=
                 str_erase1 (cur_line e) (nat (cursor_x e - 1))],
            cursor_x := cursor_x e - 1\<rparr>)"
  using assms(1) assms(2-)
  by (auto simp: handleInsertMode_def key_defs size_t_of_int_nonneg Let_def cur_line_def)

text \<open>
  C7. With the cursor on a line of the buffer and the column between 0 and the length
  of that line, typing a printable character (a key code from 32 to 126) in Insert mode
  puts it at the column and moves the column right by one; backspace (either of its two
  codes) at that new column then gives back the editor as it was, line and cursor. And
  backspace at column 0, in any editor, changes nothing.
\<close>

theorem insertChar_then_deleteCharBefore:
  assumes "row_ok e" and "0 \<le> cursor_x e" and "cursor_x e \<le> int (length (cur_line e))"
    and "32 \<le> ch" and "ch \<le> 126" and "bs = KEY_BACKSPACE \<or> bs = 127"
  shows "(\<exists>e1. handleInsertMode e ch = Inr e1
            \<and> cur_line e1 = take (nat (cursor_x e)) (cur_line e) @ [char_of ch]
                               @ drop (nat (cursor_x e)) (cur_line e)
            \<and> cursor_x e1 = cursor_x e + 1
            \<and> handleInsertMode e1 bs = Inr e)
         \<and> (cursor_x e0 = 0 \<longrightarrow> handleInsertMode e0 bs = Inr e0)"
proof -
  let ?r = "nat (cursor_y e)" and ?x = "nat (cursor_x e)" and ?l = "cur_line e"
  let ?l1 = "str_insert1 ?l ?x (char_of ch)"
  let ?e1 = "e\<lparr>content := (content e)[?r := ?l1], cursor_x := cursor_x e + 1\<rparr>"
  from assms(1) have r: "?r < length (content e)"
    by (auto simp: row_ok_def)
  have x: "?x \<le> length ?l"
    using assms(2,3) by simp
  have s1: "handleInsertMode e ch = Inr ?e1"
    by (rule handleInsertMode_printable [OF assms(1-5)])
  have v1: "row_ok ?e1"
    using assms(1) by (simp add: row_ok_def)
  have l1: "cur_line ?e1 = ?l1"
    using r by (simp add: cur_line_def)
  have len1: "cursor_x ?e1 - 1 \<le> int (length (cur_line ?e1))"
    using x assms(2) unfolding l1 by (simp add: str_insert1_def)
  have pos1: "0 < cursor_x ?e1"
    using assms(2) by simp
  have undo: "(content ?e1)[nat (cursor_y ?e1) :=
        str_erase1 (cur_line ?e1) (nat (cursor_x ?e1 - 1))] = content e"
    using r x unfolding l1 by (simp add: str_erase1_insert1 cur_line_def)
  have s2: "handleInsertMode ?e1 bs = Inr e"
    unfolding handleInsertMode_backspace [OF v1 pos1 len1 assms(6)] undo
    by simp
  have noop: "handleInsertMode e0 bs = Inr e0" if "cursor_x e0 = 0"
    using that assms(6) by (auto simp: handleInsertMode_def key_defs)
  have "cur_line ?e1 = take ?x ?l @ [char_of ch] @ drop ?x ?l"
    unfolding l1 by (simp add: str_insert1_def)
  with s1 s2 noop show ?thesis
    by simp
qed

theorem insertChar_then_deleteCharBefore_witness:
  "row_ok hello_world \<and> 0 \<le> cursor_x hello_world
   \<and> cursor_x hello_world \<le> int (length (cur_line hello_world))
   \<and> (32::int) \<le> 120 \<and> (120::int) \<le> 126 \<and> (127 = KEY_BACKSPACE \<or> (127::int) = 127)
   \<and> cursor_x (new_editor ''notes.txt'') = 0
   \<and> (\<exists>e1. handleInsertMode hello_world 120 = Inr e1 \<and> cur_line e1 = ''hexllo''
          \<and> cursor_x e1 = 3 \<and> handleInsertMode e1 127 = Inr hello_world)
   \<and> handleInsertMode (new_editor ''notes.txt'') 127 = Inr (new_editor ''notes.txt'')"
proof -
  have h1: "row_ok hello_world"
    by (simp add: hello_world_def new_editor_def row_ok_def)
  have h2: "0 \<le> cursor_x hello_world"
    by (simp add: hello_world_def)
  have h3: "cursor_x hello_world \<le> int (length (cur_line hello_world))"
    by (simp add: hello_world_def new_editor_def cur_line_def)
  have h4: "(32::int) \<le> 120" and h5: "(120::int) \<le> 126"
    by simp_all
  have h6: "127 = KEY_BACKSPACE \<or> (127::int) = 127"
    by simp
  have z: "cursor_x (new_editor ''notes.txt'') = 0"
    by (simp add: new_editor_def)
  from insertChar_then_deleteCharBefore [OF h1 h2 h3 h4 h5 h6, of "new_editor ''notes.txt''"] z
  obtain e1 where "handleInsertMode hello_world 120 = Inr e1"
    and "cur_line e1 = take (nat (cursor_x hello_world)) (cur_line hello_world) @ [char_of (120::int)]
           @ drop (nat (cursor_x hello_world)) (cur_line hello_world)"
    and "cursor_x e1 = cursor_x hello_world + 1"
    and "handleInsertMode e1 127 = Inr hello_world"
    and n: "handleInsertMode (new_editor ''notes.txt'') 127 = Inr (new_editor ''notes.txt'')"
    by blast
  then have "handleInsertMode hello_world 120 = Inr e1 \<and> cur_line e1 = ''hexllo''
          \<and> cursor_x e1 = 3 \<and> handleInsertMode e1 127 = Inr hello_world"
    by (simp add: hello_world_def new_editor_def cur_line_def char_of_def)
  with h1 h2 h3 h4 h5 h6 z n show ?thesis by blast
qed

subsection \<open>Moving up and down\<close>

text \<open>
  C9. With the cursor on a line of a buffer of at least one line, the up and down keys
  in Normal mode move the row by one and clamp it to \<open>[0, length - 1]\<close>; nothing else
  of the editor changes, the column included. The column is not brought back into the
  new line: from \<open>short_below\<close> (column 5 on \<open>hello\<close>, an empty line below) the down
  key leaves column 5 on a line of length 0.
\<close>

theorem vertical_move_clamps_row_only:
  assumes "length (content e) \<ge> 1" and "row_ok e"
  shows "handleNormalMode e KEY_UP = Inr (e\<lparr>cursor_y := max 0 (cursor_y e - 1)\<rparr>)
       \<and> handleNormalMode e KEY_DOWN
           = Inr (e\<lparr>cursor_y := min (int (length (content e)) - 1) (cursor_y e + 1)\<rparr>)
       \<and> (\<exists>e1. row_ok short_below
              \<and> cursor_x short_below \<le> int (length (cur_line short_below))
              \<and> handleNormalMode short_below KEY_DOWN = Inr e1
              \<and> row_ok e1 \<and> cursor_x e1 > int (length (cur_line e1)))"
proof -
  have "(if cursor_y e > 0 then e\<lparr>cursor_y := cursor_y e - 1\<rparr> else e)
      = e\<lparr>cursor_y := max 0 (cursor_y e - 1)\<rparr>"
    using assms(2) by (auto simp: row_ok_def max_def)
  moreover have "(if cursor_y e < int (length (content e)) - 1
          then e\<lparr>cursor_y := cursor_y e + 1\<rparr> else e)
      = e\<lparr>cursor_y := min (int (length (content e)) - 1) (cursor_y e + 1)\<rparr>"
    using assms(2) by (auto simp: row_ok_def min_def)
  moreover have "\<exists>e1. row_ok short_below
              \<and> cursor_x short_below \<le> int (length (cur_line short_below))
              \<and> handleNormalMode short_below KEY_DOWN = Inr e1
              \<and> row_ok e1 \<and> cursor_x e1 > int (length (cur_line e1))"
    by (simp add: short_below_def new_editor_def row_ok_def cur_line_def
          handleNormalMode_def key_defs size_t_of_int_def size_minus_1_def)
  ultimately show ?thesis
    by (simp add: handleNormalMode_up handleNormalMode_down [OF assms(2)])
qed

theorem vertical_move_clamps_row_only_witness:
  "length (content hello_world) \<ge> 1 \<and> row_ok hello_world
   \<and> handleNormalMode hello_world KEY_UP = Inr hello_world
   \<and> handleNormalMode hello_world KEY_DOWN = Inr (hello_world\<lparr>cursor_y := 1\<rparr>)
   \<and> handleNormalMode (hello_world\<lparr>cursor_y := 1\<rparr>) KEY_DOWN = Inr (hello_world\<lparr>cursor_y := 1\<rparr>)"
proof -
  have h1: "length (content hello_world) \<ge> 1"
    by (simp add: hello_world_def)
  have h2: "row_ok hello_world"
    by (simp add: hello_world_def new_editor_def row_ok_def)
  have h3: "length (content (hello_world\<lparr>cursor_y := 1\<rparr>)) \<ge> 1"
    by (simp add: hello_world_def)
  have h4: "row_ok (hello_world\<lparr>cursor_y := 1\<rparr>)"
    by (simp add: hello_world_def new_editor_def row_ok_def)
  show ?thesis
    using vertical_move_clamps_row_only [OF h1 h2] vertical_move_clamps_row_only [OF h3 h4] h1 h2
    by (simp add: hello_world_def new_editor_def)
qed

subsection \<open>Keys without effect in Normal mode\<close>

text \<open>
  C10. In Normal mode a key that is neither an arrow key nor one of \<open>i\<close>, \<open>d\<close>, \<open>y\<close>, \<open>p\<close>,
  \<open>o\<close> (105, 100, 121, 112, 111) leaves the whole editor as it is: buffer, cursor,
  clipboard and mode.
\<close>

theorem normal_mode_other_keys_ignored:
  assumes "ch \<notin> {KEY_UP, KEY_DOWN, KEY_LEFT, KEY_RIGHT}"
    and "ch \<notin> {105, 100, 121, 112, 111}"
  shows "handleNormalMode e ch = Inr e \<and> (mode e = NORMAL \<longrightarrow> dispatch e ch = Inr e)"
  using assms by (simp add: handleNormalMode_def dispatch_def)

theorem normal_mode_other_keys_ignored_witness:
  "120 \<notin> {KEY_UP, KEY_DOWN, KEY_LEFT, KEY_RIGHT} \<and> (120::int) \<notin> {105, 100, 121, 112, 111}
   \<and> mode two_lines = NORMAL
   \<and> handleNormalMode two_lines 120 = Inr two_lines \<and> dispatch two_lines 120 = Inr two_lines"
proof -
  have h1: "120 \<notin> {KEY_UP, KEY_DOWN, KEY_LEFT, KEY_RIGHT}"
    by (simp add: key_defs)
  have h2: "(120::int) \<notin> {105, 100, 121, 112, 111}"
    by simp
  have h3: "mode two_lines = NORMAL"
    by (simp add: two_lines_def new_editor_def)
  show ?thesis
    using normal_mode_other_keys_ignored [OF h1 h2, of two_lines] h1 h2 h3 by simp
qed

subsection \<open>Saving and loading again\<close>

lemma getline_line:
  assumes "newline \<notin> set l"
  shows "getline (l @ newline # rest) = Some (l, rest)"
proof -
  have p: "\<And>c. c \<in> set l \<Longrightarrow> c \<noteq> newline"
    using assms by auto
  have "takeWhile (\<lambda>c. c \<noteq> newline) (l @ newline # rest) = l"
    using p by (simp add: takeWhile_append2)
  moreover have "dropWhile (\<lambda>c. c \<noteq> newline) (l @ newline # rest) = newline # rest"
    using p by (simp add: dropWhile_append2)
  ultimately show ?thesis
    by (simp add: getline_def)
qed

lemma read_lines_file_text:
  assumes "list_all (\<lambda>l. newline \<notin> set l) ls"
  shows "read_lines (file_text ls) c = c @ ls"
  using assms
proof (induction ls arbitrary: c)
  case Nil
  show ?case
    by (subst read_lines.simps) (simp add: file_text_def getline_def)
next
  case (Cons l ls)
  have ft: "file_text (l # ls) = l @ newline # file_text ls"
    by (simp add: file_text_def)
  from Cons.prems have "newline \<notin> set l" and rest: "list_all (\<lambda>l. newline \<notin> set l) ls"
    by simp_all
  then have "getline (file_text (l # ls)) = Some (l, file_text ls)"
    unfolding ft by (simp add: getline_line)
  then have "read_lines (file_text (l # ls)) c = read_lines (file_text ls) (c @ [l])"
    by (subst read_lines.simps) simp
  also have "\<dots> = (c @ [l]) @ ls"
    by (rule Cons.IH [OF rest])
  finally show ?case by simp
qed

text \<open>
  C8. For a buffer of at least one line in which no line holds a newline character, and
  a file that can be opened for writing and then for reading: \<open>saveFile\<close> writes the
  lines in order, each followed by a newline, the last one too; and \<open>loadFile\<close> into a
  freshly constructed editor for the same file gives back the same sequence of lines.
\<close>

theorem save_then_load_roundtrip:
  assumes "length (content e) \<ge> 1" and "list_all (\<lambda>l. newline \<notin> set l) (content e)"
    and "can_write d" and "can_read d"
  shows "bytes (saveFile e d) = Some (concat (map (\<lambda>l. l @ [newline]) (content e)))
       \<and> content (loadFile (new_editor (filename e)) (saveFile e d)) = content e"
proof -
  have sv: "saveFile e d = d\<lparr>bytes := Some (file_text (content e))\<rparr>"
    using assms(3) by (simp add: saveFile_def)
  have op: "ifstream_open (saveFile e d) = Some (file_text (content e))"
    using assms(4) by (simp add: sv ifstream_open_def)
  have rd: "read_lines (file_text (content e)) [] = content e"
    using read_lines_file_text [OF assms(2), of "[]"] by simp
  have ne: "content e \<noteq> []"
    using assms(1) by auto
  have "content (loadFile (new_editor (filename e)) (saveFile e d)) = content e"
    using ne by (simp add: loadFile_def op new_editor_def rd)
  then show ?thesis
    by (simp add: sv file_text_def)
qed

theorem save_then_load_roundtrip_witness:
  "length (content hello_world) \<ge> 1
   \<and> list_all (\<lambda>l. newline \<notin> set l) (content hello_world)
   \<and> can_write missing_file \<and> can_read missing_file
   \<and> bytes (saveFile hello_world missing_file)
       = Some (''hello'' @ [newline] @ ''world'' @ [newline])
   \<and> content (loadFile (new_editor ''notes.txt'') (saveFile hello_world missing_file))
       = [''hello'', ''world'']"
proof -
  have h1: "length (content hello_world) \<ge> 1"
    by (simp add: hello_world_def)
  have h2: "list_all (\<lambda>l. newline \<notin> set l) (content hello_world)"
    by (simp add: hello_world_def newline_def)
  have h3: "can_write missing_file" and h4: "can_read missing_file"
    by (simp_all add: missing_file_def)
  show ?thesis
    using save_then_load_roundtrip [OF h1 h2 h3 h4] h1 h2 h3 h4
    by (simp add: hello_world_def new_editor_def)
qed

subsection \<open>Quitting\<close>

lemma char_of_not_q:
  assumes "32 \<le> ch" and "ch \<le> 126" and "ch \<noteq> 113"
  shows "char_of (ch::int) \<noteq> CHR ''q''"
proof
  assume "char_of ch = CHR ''q''"
  then have "of_char (char_of ch) = (of_char CHR ''q'' :: int)"
    by simp
  then have "ch mod 256 = 113"
    by simp
  with assms show False by simp
qed

lemma list_all_take: "list_all P xs \<Longrightarrow> list_all P (take n xs)"
  by (auto simp: list_all_iff dest: in_set_takeD)

lemma list_all_drop: "list_all P xs \<Longrightarrow> list_all P (drop n xs)"
  by (auto simp: list_all_iff dest: in_set_dropD)

lemma list_all_update: "list_all P xs \<Longrightarrow> P x \<Longrightarrow> list_all P (xs[i := x])"
  using set_update_subset_insert [of xs i x] by (auto simp: list_all_iff)

lemma list_all_nth: "list_all P xs \<Longrightarrow> i < length xs \<Longrightarrow> P (xs ! i)"
  by (simp add: list_all_iff)

lemma list_all_vec_insert: "list_all P xs \<Longrightarrow> P x \<Longrightarrow> list_all P (vec_insert xs k x)"
  by (simp add: vec_insert_def list_all_take list_all_drop)

lemma list_all_vec_erase: "list_all P xs \<Longrightarrow> list_all P (vec_erase xs k)"
  by (simp add: vec_erase_def list_all_take list_all_drop)

lemma row_ok_nth: "row_ok e \<Longrightarrow> nat (cursor_y e) < length (content e)"
  by (auto simp: row_ok_def)

lemma no_q_handleNormalMode:
  assumes "no_q e" and "handleNormalMode e ch = Inr e1"
  shows "no_q e1"
proof -
  let ?P = "\<lambda>l. CHR ''q'' \<notin> set l"
  from assms(1) have c: "list_all ?P (content e)" and b: "?P (copy_buffer e)"
    by (simp_all add: no_q_def)
  have nil: "?P []" by simp
  have cur: "?P (content e ! nat (cursor_y e))" if "row_ok e"
    by (rule list_all_nth [OF c row_ok_nth [OF that]])
  note facts = c b cur list_all_vec_erase [OF c] list_all_vec_insert [OF c b]
    list_all_vec_insert [OF c nil] list_all_update [OF c nil]
  from assms(2) facts show ?thesis
    by (auto simp: handleNormalMode_def no_q_def Let_def split: if_splits)
qed

lemma no_q_handleInsertMode:
  assumes "no_q e" and "ch \<noteq> 113" and "handleInsertMode e ch = Inr e1"
  shows "no_q e1"
proof -
  let ?P = "\<lambda>l. CHR ''q'' \<notin> set l"
  from assms(1) have c: "list_all ?P (content e)" and b: "?P (copy_buffer e)"
    by (simp_all add: no_q_def)
  show ?thesis
  proof (cases "row_ok e")
    case False
    with assms show ?thesis
      by (auto simp: handleInsertMode_def no_q_def split: if_splits)
  next
    case True
    let ?r = "nat (cursor_y e)"
    let ?l = "content e ! ?r"
    have l: "?P ?l"
      by (rule list_all_nth [OF c row_ok_nth [OF True]])
    have er: "?P (str_erase1 ?l k)" for k
      using l by (auto simp: str_erase1_def dest: in_set_takeD in_set_dropD)
    have dr: "?P (drop k ?l)" for k
      using l by (auto dest: in_set_dropD)
    have ins: "?P (str_insert1 ?l k (char_of ch))" if "32 \<le> ch" "ch \<le> 126" for k
      using l char_of_not_q [OF that assms(2)]
      by (auto simp: str_insert1_def dest: in_set_takeD in_set_dropD)
    have split: "list_all ?P ((vec_insert (content e) (Suc ?r) (drop k ?l))
        [?r := take j (vec_insert (content e) (Suc ?r) (drop k ?l) ! ?r)])" for k j
    proof -
      have v: "list_all ?P (vec_insert (content e) (Suc ?r) (drop k ?l))"
        by (rule list_all_vec_insert [OF c dr])
      have "?r < length (vec_insert (content e) (Suc ?r) (drop k ?l))"
        using row_ok_nth [OF True] by (simp add: vec_insert_def)
      from list_all_nth [OF v this]
      have "?P (take j (vec_insert (content e) (Suc ?r) (drop k ?l) ! ?r))"
        by (auto dest: in_set_takeD)
      with v show ?thesis by (rule list_all_update)
    qed
    note facts = c b list_all_update [OF c er] list_all_update [OF c ins] split
    from assms(3) True facts show ?thesis
      by (auto simp: handleInsertMode_def no_q_def Let_def split: if_splits)
  qed
qed

lemma draw_keeps:
  assumes "draw e max_y max_x = Inr e1"
  shows "content e1 = content e \<and> copy_buffer e1 = copy_buffer e \<and> mode e1 = mode e
       \<and> cursor_x e1 = cursor_x e \<and> cursor_y e1 = cursor_y e"
  using assms by (auto simp: draw_def Let_def split: if_splits)

lemma no_q_draw: "no_q e \<Longrightarrow> draw e max_y max_x = Inr e1 \<Longrightarrow> no_q e1"
  using draw_keeps [of e max_y max_x e1] by (simp add: no_q_def)

lemma no_q_dispatch:
  "no_q e \<Longrightarrow> ch \<noteq> 113 \<Longrightarrow> dispatch e ch = Inr e1 \<Longrightarrow> no_q e1"
  by (cases "mode e")
    (auto simp: dispatch_def intro: no_q_handleNormalMode no_q_handleInsertMode)

lemma no_q_run:
  assumes "no_q e" and "reached (run e chs max_y max_x d) = Some e1"
  shows "no_q e1"
  using assms
proof (induction chs arbitrary: e)
  case Nil
  then show ?case by simp
next
  case (Cons ch chs)
  show ?case
  proof (cases "ch = 113")
    case True
    with Cons.prems show ?thesis by simp
  next
    case False
    with Cons.prems(2) obtain e2 e3 where d: "dispatch e ch = Inr e2"
      and w: "draw e2 max_y max_x = Inr e3"
      and r: "reached (run e3 chs max_y max_x d) = Some e1"
      by (auto split: sum.splits)
    from no_q_dispatch [OF Cons.prems(1) False d] have "no_q e2" .
    from no_q_draw [OF this w] have "no_q e3" .
    from Cons.IH [OF this r] show ?thesis .
  qed
qed

text \<open>
  Given the key 113 directly, \<open>handleInsertMode\<close> would insert the character \<open>q\<close>: it is
  the test in \<open>run\<close> that keeps the key away from it.
\<close>

lemma handleInsertMode_would_insert_q:
  "handleInsertMode hello_world 113
     = Inr (hello_world\<lparr>content := [''heqllo'', ''world''], cursor_x := 3\<rparr>)"
  by (simp add: handleInsertMode_def hello_world_def new_editor_def key_defs row_ok_def
        size_t_of_int_def str_insert1_def char_of_def)

text \<open>
  C4. Whatever the mode, when \<open>run\<close> reads the key \<open>q\<close> (113) it leaves the loop without
  dispatching the key, and the file is saved once, from the editor as it is; the keys
  after it are not read. Consequently, if neither the buffer nor the clipboard holds a
  \<open>q\<close> when \<open>run\<close> starts, then after every sequence of keys the editor reached (saved
  after a \<open>q\<close>, or waiting for the next key) holds none either: no key sequence types
  a \<open>q\<close> into the buffer.
\<close>

theorem quit_key_never_typed:
  "run e (113 # chs) max_y max_x d = Saved e (saveFile e d)
   \<and> (no_q e \<longrightarrow> reached (run e chs max_y max_x d) = Some e1 \<longrightarrow> no_q e1)"
  using no_q_run [of e chs max_y max_x d e1] by simp

theorem quit_key_never_typed_witness:
  "no_q hello_world
   \<and> run hello_world [105, 104, 113, 120] 24 80 missing_file
       = Saved (hello_world\<lparr>content := [''hehllo'', ''world''], cursor_x := 3, mode := INSERT\<rparr>)
           (missing_file\<lparr>bytes := Some (''hehllo'' @ [newline] @ ''world'' @ [newline])\<rparr>)
   \<and> no_q (hello_world\<lparr>content := [''hehllo'', ''world''], cursor_x := 3, mode := INSERT\<rparr>)"
proof -
  let ?e1 = "hello_world\<lparr>content := [''hehllo'', ''world''], cursor_x := 3, mode := INSERT\<rparr>"
  have h1: "no_q hello_world"
    by (simp add: no_q_def hello_world_def new_editor_def)
  have r: "run hello_world [105, 104, 113, 120] 24 80 missing_file
       = Saved ?e1 (missing_file\<lparr>bytes := Some (''hehllo'' @ [newline] @ ''world'' @ [newline])\<rparr>)"
    by (simp add: hello_world_def new_editor_def dispatch_def handleNormalMode_def
          handleInsertMode_def key_defs row_ok_def size_t_of_int_def str_insert1_def
          char_of_def draw_def drawn_rows_def saveFile_def file_text_def missing_file_def)
  then have h2: "reached (run hello_world [105, 104, 113, 120] 24 80 missing_file) = Some ?e1"
    by simp
  from quit_key_never_typed [of hello_world "[105, 104, 113, 120]" 24 80 missing_file ?e1] h1 h2
  have "no_q ?e1" by blast
  with h1 r show ?thesis by blast
qed

end
